theory Spec2Isabelle
  imports Complex_Main
begin

section \<open>The bias-variance notebook: constants, errors, arrays\<close>

text \<open>
  The notebook \<^verbatim>\<open>lessons/bias-variance_tradeoff.ipynb\<close> is a linear script: its code
  cells run top to bottom and share global names. Each global is a definition here, in
  the order of the cells. One-dimensional numpy arrays of floats are \<open>real list\<close>
  (exact reals stand for the floats: rounding, underflow and overflow of the machine
  numbers are not modelled), a two-dimensional array is the list of its rows.
  The global \<^verbatim>\<open>x\<close> is named \<open>x_train\<close> and \<^verbatim>\<open>y\<close> is named \<open>y_train\<close>, since a
  constant called \<open>x\<close> or \<open>y\<close> would capture every variable of that name.
\<close>

definition N :: nat where
  \<comment> \<open>\<^verbatim>\<open>N = 40         # max poly degree\<close>\<close>
  "N = 40"

definition NOISE :: real where
  \<comment> \<open>\<^verbatim>\<open>NOISE = .5     # amount of noise in the data\<close>\<close>
  "NOISE = 1 / 2"

text \<open>
  The exceptions the library calls of the script can raise, named by their cause:
  numpy's failed broadcast (a ValueError), \<^verbatim>\<open>np.vectorize\<close> on a size-0 array without
  \<^verbatim>\<open>otypes\<close> (a ValueError), \<^verbatim>\<open>statistics.mean\<close> of no data, \<^verbatim>\<open>math.sqrt\<close> of a negative
  number (a ValueError), a list index out of range, and a missing column label.
\<close>

datatype error =
    BroadcastError
  | VectorizeSizeZero
  | StatisticsError
  | MathDomainError
  | IndexError
  | KeyError

definition and_then :: "error + 'a \<Rightarrow> ('a \<Rightarrow> error + 'b) \<Rightarrow> error + 'b" where
  \<comment> \<open>sequencing: an exception of the first computation skips the second\<close>
  "and_then r f = (case r of Inl e \<Rightarrow> Inl e | Inr v \<Rightarrow> f v)"

definition arange :: "real \<Rightarrow> real \<Rightarrow> real \<Rightarrow> real list" where
  \<comment> \<open>\<^verbatim>\<open>np.arange(start, stop, step)\<close>: \<open>ceil((stop - start) / step)\<close> values \<open>start + i * step\<close>\<close>
  "arange start stop step =
     map (\<lambda>i. start + real i * step) [0..<nat \<lceil>(stop - start) / step\<rceil>]"

definition broadcast :: "(real \<Rightarrow> real \<Rightarrow> real) \<Rightarrow> real list \<Rightarrow> real list \<Rightarrow> error + real list" where
  \<comment> \<open>an elementwise binary operator of numpy on two one-dimensional arrays: equal
      lengths pair up, a length-1 array is stretched, anything else raises\<close>
  "broadcast f a b =
     (if length a = length b then Inr (map2 f a b)
      else if length a = 1 then Inr (map (f (hd a)) b)
      else if length b = 1 then Inr (map (\<lambda>u. f u (hd b)) a)
      else Inl BroadcastError)"

definition vectorize :: "(real \<Rightarrow> real) \<Rightarrow> real list \<Rightarrow> error + real list" where
  \<comment> \<open>\<^verbatim>\<open>np.vectorize(f)(a)\<close> with no \<^verbatim>\<open>otypes\<close>: refuses a size-0 input\<close>
  "vectorize f a = (if a = [] then Inl VectorizeSizeZero else Inr (map f a))"

subsection \<open>The random generator\<close>

text \<open>
  \<^verbatim>\<open>np.random.randn(n)\<close> reads the next \<open>n\<close> values of numpy's global generator. The
  generator state is the stream of values still to come; the script threads it through
  its three calls.
\<close>

type_synonym rng = "nat \<Rightarrow> real"

definition randn :: "nat \<Rightarrow> rng \<Rightarrow> real list \<times> rng" where
  "randn n g = (map g [0..<n], \<lambda>i. g (n + i))"

definition const_rng :: "real \<Rightarrow> rng" where
  \<comment> \<open>a generator for tests: every draw is \<open>c\<close>\<close>
  "const_rng c = (\<lambda>i. c)"

section \<open>Cell 2: the training sample\<close>

definition x_train :: "real list" where
  \<comment> \<open>\<^verbatim>\<open>x = np.arange(-1,1,.01)\<close>\<close>
  "x_train = arange (- 1) 1 (1 / 100)"

definition true_model_at :: "real \<Rightarrow> real" where
  \<comment> \<open>the ground truth at one input\<close>
  "true_model_at v = 3 * v ^ 2 + 5 * sin (v ^ 4 + 3) + v"

definition true_model :: "real list \<Rightarrow> error + real list" where
  \<comment> \<open>\<^verbatim>\<open>true_model = lambda x:  3*x**2 + 5 * np.vectorize(math.sin)(x**(4) + 3) +x\<close>\<close>
  "true_model xs =
     and_then (vectorize sin (map (\<lambda>v. v ^ 4 + 3) xs))
       (\<lambda>s. Inr (map2 (\<lambda>v sv. 3 * v ^ 2 + 5 * sv + v) xs s))"

definition y_true :: "error + real list" where
  \<comment> \<open>\<^verbatim>\<open>y_true = true_model(x)\<close>\<close>
  "y_true = true_model x_train"

definition y_train :: "rng \<Rightarrow> (error + real list) \<times> rng" where
  \<comment> \<open>\<^verbatim>\<open>y = y_true + (NOISE * np.random.randn(y_true.size))\<close>\<close>
  "y_train g =
     (case y_true of
        Inl e \<Rightarrow> (Inl e, g)
      | Inr yt \<Rightarrow>
          (case randn (length yt) g of
             (z, g') \<Rightarrow> (broadcast (+) yt (map (\<lambda>v. NOISE * v) z), g')))"

definition training_sample :: "rng \<Rightarrow> (real list \<times> (error + real list)) \<times> rng" where
  \<comment> \<open>the whole cell: the pair (inputs, targets) it leaves behind, and the generator\<close>
  "training_sample g = ((x_train, fst (y_train g)), snd (y_train g))"

section \<open>Cell 7: the error of a model\<close>

definition mean :: "real list \<Rightarrow> error + real" where
  \<comment> \<open>\<^verbatim>\<open>statistics.mean\<close>: raises on fewer than one data point\<close>
  "mean data =
     (if length data < 1 then Inl StatisticsError
      else Inr (sum_list data / real (length data)))"

definition math_sqrt :: "real \<Rightarrow> error + real" where
  \<comment> \<open>\<^verbatim>\<open>math.sqrt\<close>: raises on a negative argument\<close>
  "math_sqrt v = (if v < 0 then Inl MathDomainError else Inr (sqrt v))"

definition rmse :: "real list \<Rightarrow> real list \<Rightarrow> error + real" where
  \<comment> \<open>\<^verbatim>\<open>def rmse(preds, true_y=y): return math.sqrt(mean((true_y-preds)**2))\<close>; the
      default argument is passed explicitly by the caller\<close>
  "rmse preds true_y =
     and_then (broadcast (-) true_y preds)
       (\<lambda>d. and_then (mean (map (\<lambda>v. v ^ 2) d)) math_sqrt)"

definition rmse_spec :: "real list \<Rightarrow> real list \<Rightarrow> real" where
  \<comment> \<open>the error evaluator in the words of the specification: the square root of the
      mean of the squared per-element differences\<close>
  "rmse_spec preds true_y =
     sqrt ((\<Sum>i<length true_y. (true_y ! i - preds ! i) ^ 2) / real (length true_y))"

section \<open>Cell 9: the test sample\<close>

definition x_test :: "rng \<Rightarrow> real list \<times> rng" where
  \<comment> \<open>\<^verbatim>\<open>x_test = np.random.randn(500)\<close>,
      \<^verbatim>\<open>x_test = np.array([i for i in x_test if abs(i) <= 1])\<close>\<close>
  "x_test g = (case randn 500 g of (d, g') \<Rightarrow> (filter (\<lambda>i. \<bar>i\<bar> \<le> 1) d, g'))"

definition y_test :: "real list \<Rightarrow> rng \<Rightarrow> (error + real list) \<times> rng" where
  \<comment> \<open>\<^verbatim>\<open>y_test = true_model(x_test) + (NOISE * np.random.randn(x_test.size))\<close>\<close>
  "y_test xt g =
     (case true_model xt of
        Inl e \<Rightarrow> (Inl e, g)
      | Inr yt \<Rightarrow>
          (case randn (length xt) g of
             (z, g') \<Rightarrow> (broadcast (+) yt (map (\<lambda>v. NOISE * v) z), g')))"

section \<open>Cells 3 and 9: the feature frames\<close>

text \<open>
  A pandas DataFrame is the ordered list of its labelled columns. Every column the
  script stores is computed elementwise from the column \<^verbatim>\<open>x\<close> of the same frame, so
  all columns of a frame have one length.
\<close>

type_synonym frame = "(string \<times> real list) list"

definition digit :: "nat \<Rightarrow> char" where
  "digit n = ''0123456789'' ! n"

fun str :: "nat \<Rightarrow> string" where
  \<comment> \<open>Python's \<^verbatim>\<open>str\<close> on a non-negative integer: its decimal digits\<close>
  "str n = (if n < 10 then [digit n] else str (n div 10) @ [digit (n mod 10)])"

declare str.simps [simp del]

fun setitem :: "frame \<Rightarrow> string \<Rightarrow> real list \<Rightarrow> frame" where
  \<comment> \<open>\<^verbatim>\<open>df[name] = col\<close>: replaces the column of that label, or appends a new last column\<close>
  "setitem [] name col = [(name, col)]"
| "setitem ((n, c) # f) name col =
     (if n = name then (name, col) # f else (n, c) # setitem f name col)"

definition expand :: "real list \<Rightarrow> frame" where
  \<comment> \<open>\<^verbatim>\<open>pd.DataFrame({'x':x})\<close>, then \<^verbatim>\<open>for i in range(2,N+1): df['x^' + str(i)] = x**i\<close>\<close>
  "expand xs =
     fold (\<lambda>i f. setitem f (''x^'' @ str i) (map (\<lambda>v. v ^ i) xs)) [2..<N + 1] [(''x'', xs)]"

definition df :: frame where
  "df = expand x_train"

definition df_test :: "real list \<Rightarrow> frame" where
  "df_test xt = expand xt"

definition columns :: "frame \<Rightarrow> string list" where
  \<comment> \<open>\<^verbatim>\<open>df.columns\<close>\<close>
  "columns f = map fst f"

fun getitem :: "frame \<Rightarrow> string list \<Rightarrow> error + frame" where
  \<comment> \<open>\<^verbatim>\<open>df[labels]\<close>: the columns of these labels, in the order asked for\<close>
  "getitem f [] = Inr []"
| "getitem f (n # ns) =
     (case map_of f n of
        None \<Rightarrow> Inl KeyError
      | Some c \<Rightarrow> and_then (getitem f ns) (\<lambda>cs. Inr ((n, c) # cs)))"

definition frame_values :: "frame \<Rightarrow> real list list" where
  \<comment> \<open>\<^verbatim>\<open>.values\<close>: the two-dimensional array of the frame, one row per index entry\<close>
  "frame_values f =
     (case f of
        [] \<Rightarrow> []
      | (n, c) # rest \<Rightarrow> map (\<lambda>r. map (\<lambda>(n', c'). c' ! r) f) [0..<length c])"

fun collect :: "('a \<Rightarrow> error + 'b) \<Rightarrow> 'a list \<Rightarrow> error + 'b list" where
  \<comment> \<open>a list comprehension whose element expression may raise\<close>
  "collect h [] = Inr []"
| "collect h (a # as) =
     and_then (h a) (\<lambda>v. and_then (collect h as) (\<lambda>vs. Inr (v # vs)))"

definition prefix_matrices :: "frame \<Rightarrow> error + real list list list" where
  \<comment> \<open>\<^verbatim>\<open>[f[list(f.columns[:i])].values for i in range(1,f.shape[1])]\<close>\<close>
  "prefix_matrices f =
     collect (\<lambda>i. and_then (getitem f (take i (columns f))) (\<lambda>sub. Inr (frame_values sub)))
       [1..<length f]"

definition Xs :: "error + real list list list" where
  \<comment> \<open>\<^verbatim>\<open>Xs = [df[list(df.columns[:i])].values for i in range(1,df.shape[1])]\<close>\<close>
  "Xs = prefix_matrices df"

definition test_Xs :: "real list \<Rightarrow> error + real list list list" where
  \<comment> \<open>\<^verbatim>\<open>test_Xs = [df_test[list(df_test.columns[:i])].values for i in range(1,df_test.shape[1])]\<close>\<close>
  "test_Xs xt = prefix_matrices (df_test xt)"

section \<open>Cell 4: models and predictions\<close>

record linear_model =
  intercept :: real
  coef :: "real list"

text \<open>
  \<^verbatim>\<open>LinearRegression().fit(X, y)\<close> is scikit-learn's, not the notebook's: the fitting
  routine is a parameter \<open>fit\<close> of everything that uses it, and what is asked of it is
  said where it is needed.
\<close>

type_synonym fitter = "real list list \<Rightarrow> real list \<Rightarrow> linear_model"

definition predict :: "linear_model \<Rightarrow> real list list \<Rightarrow> real list" where
  \<comment> \<open>Modelled from the spec: \<^verbatim>\<open>model.predict\<close> of scikit-learn, which is not in the
      notebook. The prediction sequence has one number per input row, obtained by
      applying the fitted coefficients (one per feature column, plus the intercept) to
      the row. The script applies a model only to matrices of the degree it was fitted
      on (\<^verbatim>\<open>zip\<close> pairs the lists by position), so row and coefficients pair up.\<close>
  "predict m X = map (\<lambda>row. sum_list (map2 (*) row (coef m)) + intercept m) X"

definition models :: "fitter \<Rightarrow> real list list list \<Rightarrow> real list \<Rightarrow> linear_model list" where
  \<comment> \<open>\<^verbatim>\<open>models = [LinearRegression().fit(X, y) for X in Xs]\<close>\<close>
  "models fit Xv yv = map (\<lambda>X. fit X yv) Xv"

definition predictions :: "real list list list \<Rightarrow> linear_model list \<Rightarrow> real list list" where
  \<comment> \<open>\<^verbatim>\<open>predictions = [model.predict(X) for X,model in zip(Xs,models)]\<close>\<close>
  "predictions Xv ms = map (\<lambda>(X, model). predict model X) (zip Xv ms)"

definition test_predictions :: "real list list list \<Rightarrow> linear_model list \<Rightarrow> real list list" where
  \<comment> \<open>\<^verbatim>\<open>test_predictions = [model.predict(X) for X,model in zip(test_Xs,models)]\<close>\<close>
  "test_predictions tXv ms = map (\<lambda>(X, model). predict model X) (zip tXv ms)"

section \<open>Cells 8 and 11: the error curves\<close>

definition model_size :: "nat list" where
  \<comment> \<open>\<^verbatim>\<open>model_size = list(range(1,N))\<close>\<close>
  "model_size = [1..<N]"

definition item :: "'a list \<Rightarrow> int \<Rightarrow> error + 'a" where
  \<comment> \<open>Python's \<^verbatim>\<open>xs[i]\<close>: a negative index counts from the end\<close>
  "item xs i =
     (let n = int (length xs); j = (if i < 0 then n + i else i)
      in if 0 \<le> j \<and> j < n then Inr (xs ! nat j) else Inl IndexError)"

fun rmse_loop :: "real list list \<Rightarrow> real list \<Rightarrow> real list \<Rightarrow> nat list \<Rightarrow> error + real list" where
  \<comment> \<open>\<^verbatim>\<open>for i in model_size: curve.append(rmse(preds[i-1], true_y))\<close>, from the curve so far\<close>
  "rmse_loop preds true_y curve [] = Inr curve"
| "rmse_loop preds true_y curve (i # rest) =
     and_then (item preds (int i - 1))
       (\<lambda>p. and_then (rmse p true_y) (\<lambda>r. rmse_loop preds true_y (curve @ [r]) rest))"

definition training_rmse :: "real list list \<Rightarrow> real list \<Rightarrow> error + real list" where
  \<comment> \<open>\<^verbatim>\<open>training_rmse = []\<close>, \<^verbatim>\<open>for i in model_size: training_rmse.append(rmse(predictions[i-1]))\<close>\<close>
  "training_rmse preds yv = rmse_loop preds yv [] model_size"

definition test_rmse :: "real list list \<Rightarrow> real list \<Rightarrow> error + real list" where
  \<comment> \<open>\<^verbatim>\<open>test_rmse = []\<close>,
      \<^verbatim>\<open>for i in model_size: test_rmse.append(rmse(test_predictions[i-1], true_y=y_test))\<close>\<close>
  "test_rmse tpreds ytv = rmse_loop tpreds ytv [] model_size"

section \<open>The cells in sequence\<close>

text \<open>
  The notebook up to the training curve, and up to the test curve: each global is
  computed from the ones before it, an exception ends the run, and the generator is
  handed from one \<^verbatim>\<open>randn\<close> call to the next.
\<close>

definition notebook_training_rmse :: "fitter \<Rightarrow> rng \<Rightarrow> error + real list" where
  "notebook_training_rmse fit g =
     and_then (fst (y_train g)) (\<lambda>yv.
     and_then Xs (\<lambda>Xv.
       training_rmse (predictions Xv (models fit Xv yv)) yv))"

definition notebook_test_rmse :: "fitter \<Rightarrow> rng \<Rightarrow> error + real list" where
  "notebook_test_rmse fit g =
     and_then (fst (y_train g)) (\<lambda>yv.
     and_then Xs (\<lambda>Xv.
     and_then (training_rmse (predictions Xv (models fit Xv yv)) yv) (\<lambda>curve.
       (case x_test (snd (y_train g)) of
          (xt, g2) \<Rightarrow>
            and_then (fst (y_test xt g2)) (\<lambda>ytv.
            and_then (test_Xs xt) (\<lambda>tXv.
              test_rmse (test_predictions tXv (models fit Xv yv)) ytv))))))"

section \<open>Notions used to state the properties\<close>

definition sse :: "real list \<Rightarrow> real list \<Rightarrow> real" where
  \<comment> \<open>the sum of the squared differences between targets and predictions\<close>
  "sse preds true_y = sum_list (map2 (\<lambda>t p. (t - p) ^ 2) true_y preds)"

definition column_label :: "nat \<Rightarrow> string" where
  \<comment> \<open>the label of the column of the \<open>k\<close>-th powers\<close>
  "column_label k = (if k = 1 then ''x'' else ''x^'' @ str k)"

definition power_column :: "real list \<Rightarrow> nat \<Rightarrow> string \<times> real list" where
  \<comment> \<open>the labelled column of the \<open>k\<close>-th powers of the inputs\<close>
  "power_column xs k = (column_label k, map (\<lambda>v. v ^ k) xs)"

definition powers_matrix :: "real list \<Rightarrow> nat \<Rightarrow> real list list" where
  \<comment> \<open>the degree-\<open>d\<close> feature matrix: one row per input, column \<open>k\<close> (from 1 to \<open>d\<close>)
      holding the input raised to the power \<open>k\<close>\<close>
  "powers_matrix xs d = map (\<lambda>v. map (\<lambda>k. v ^ k) [1..<d + 1]) xs"

definition training_targets :: "rng \<Rightarrow> real list" where
  \<comment> \<open>the value of the global \<^verbatim>\<open>y\<close>: ground truth plus scaled noise on the training grid\<close>
  "training_targets g = map (\<lambda>i. true_model_at (x_train ! i) + NOISE * g i) [0..<200]"


definition zero_fit :: fitter where
  \<comment> \<open>a fitter for tests: the zero model of the width of the matrix\<close>
  "zero_fit X yv = \<lparr>intercept = 0, coef = replicate (length (hd X)) 0\<rparr>"










section \<open>Basic facts\<close>

lemma and_then_Inr [simp]: "and_then (Inr v) f = f v"
  by (simp add: and_then_def)

lemma and_then_Inl [simp]: "and_then (Inl e) f = Inl e"
  by (simp add: and_then_def)

subsection \<open>The generated samples\<close>

lemma x_train_grid: "x_train = map (\<lambda>k. - 1 + real k / 100) [0..<200]"
  by (simp add: x_train_def arange_def)

lemma length_x_train: "length x_train = 200"
  by (simp add: x_train_grid)


lemma true_model_nonempty:
  "xs \<noteq> [] \<Longrightarrow> true_model xs = Inr (map true_model_at xs)"
proof -
  assume "xs \<noteq> []"
  have "map2 (\<lambda>v sv. 3 * v ^ 2 + 5 * sv + v) xs (map sin (map (\<lambda>v. v ^ 4 + 3) xs))
      = map true_model_at xs"
    by (induction xs) (simp_all add: true_model_at_def)
  with \<open>xs \<noteq> []\<close> show ?thesis
    by (simp add: true_model_def vectorize_def)
qed

lemma true_model_empty: "true_model [] = Inl VectorizeSizeZero"
  by (simp add: true_model_def vectorize_def)

lemma noisy_targets:
  "broadcast (+) (map f xs) (map (\<lambda>v. NOISE * v) (map g [0..<length xs]))
    = Inr (map (\<lambda>i. f (xs ! i) + NOISE * g i) [0..<length xs])"
proof -
  have "map2 (+) (map f xs) (map (\<lambda>v. NOISE * v) (map g [0..<length xs]))
      = map (\<lambda>i. f (xs ! i) + NOISE * g i) [0..<length xs]"
    by (rule nth_equalityI) simp_all
  then show ?thesis by (simp add: broadcast_def)
qed

lemma y_test_nonempty:
  assumes "xt \<noteq> []"
  shows "y_test xt g =
    (Inr (map (\<lambda>i. true_model_at (xt ! i) + NOISE * g i) [0..<length xt]),
     \<lambda>i. g (length xt + i))"
  using assms noisy_targets [of true_model_at xt g]
  by (simp add: y_test_def true_model_nonempty randn_def)

lemma y_test_empty: "y_test [] g = (Inl VectorizeSizeZero, g)"
  by (simp add: y_test_def true_model_empty)

lemma y_train_eq:
  "y_train g =
    (Inr (map (\<lambda>i. true_model_at (x_train ! i) + NOISE * g i) [0..<200]),
     \<lambda>i. g (200 + i))"
proof -
  have ne: "x_train \<noteq> []" using length_x_train by auto
  show ?thesis
    using noisy_targets [of true_model_at x_train g]
    by (simp add: y_train_def y_true_def true_model_nonempty [OF ne] randn_def length_x_train)
qed

lemma x_test_eq:
  "x_test g = (filter (\<lambda>v. \<bar>v\<bar> \<le> 1) (map g [0..<500]), \<lambda>i. g (500 + i))"
  by (simp add: x_test_def randn_def)

subsection \<open>The error of a model\<close>

lemma sse_nonneg: "0 \<le> sse preds true_y"
  unfolding sse_def by (rule sum_list_nonneg) auto

lemma squared_differences:
  "map (\<lambda>v. v ^ 2) (map2 (-) true_y preds) = map2 (\<lambda>t p. (t - p) ^ 2) true_y preds"
  by (induction true_y arbitrary: preds) (auto simp: neq_Nil_conv split: list.splits)

lemma rmse_same_length:
  assumes "length preds = length true_y" and "preds \<noteq> []"
  shows "rmse preds true_y = Inr (sqrt (sse preds true_y / real (length true_y)))"
proof -
  have ne: "true_y \<noteq> []" using assms by auto
  have "0 \<le> sse preds true_y / real (length true_y)"
    using sse_nonneg [of preds true_y] by simp
  then have "math_sqrt (sse preds true_y / real (length true_y))
      = Inr (sqrt (sse preds true_y / real (length true_y)))"
    by (simp add: math_sqrt_def)
  moreover have "mean (map (\<lambda>v. v ^ 2) (map2 (-) true_y preds))
      = Inr (sse preds true_y / real (length true_y))"
    unfolding squared_differences using assms ne by (simp add: mean_def sse_def)
  moreover have "broadcast (-) true_y preds = Inr (map2 (-) true_y preds)"
    using assms by (simp add: broadcast_def)
  ultimately show ?thesis
    unfolding rmse_def by simp
qed

lemma sse_zero_iff:
  "length preds = length true_y \<Longrightarrow> sse preds true_y = 0 \<longleftrightarrow> preds = true_y"
proof (induction preds true_y rule: list_induct2)
  case Nil
  show ?case by (simp add: sse_def)
next
  case (Cons p ps t ts)
  have "(t - p) ^ 2 + sse ps ts = 0 \<longleftrightarrow> (t - p) ^ 2 = 0 \<and> sse ps ts = 0"
    using sse_nonneg [of ps ts] by (simp add: add_nonneg_eq_0_iff)
  moreover have "sse (p # ps) (t # ts) = (t - p) ^ 2 + sse ps ts"
    by (simp add: sse_def)
  ultimately show ?case using Cons.IH by auto
qed

lemma sse_sum_nth:
  assumes "length preds = length true_y"
  shows "sse preds true_y = (\<Sum>i<length true_y. (true_y ! i - preds ! i) ^ 2)"
proof -
  let ?d = "map2 (\<lambda>t p. (t - p) ^ 2) true_y preds"
  have "sse preds true_y = (\<Sum>i = 0..<length ?d. ?d ! i)"
    unfolding sse_def by (rule sum_list_sum_nth)
  also have "\<dots> = (\<Sum>i = 0..<length true_y. (true_y ! i - preds ! i) ^ 2)"
    using assms by (intro sum.cong) simp_all
  finally show ?thesis by (simp add: atLeast0LessThan)
qed

section \<open>The training inputs\<close>

text \<open>
  C4, as amended. The training input sequence is not drawn at random: whatever the
  generator, it is the evenly spaced grid of the 200 values \<open>-1 + k/100\<close> for
  \<open>k = 0, ..., 199\<close>, all of them in the interval from \<open>-1\<close> (included) to \<open>1\<close> (excluded).
\<close>

theorem training_inputs_grid:
  "fst (fst (training_sample g)) = map (\<lambda>k. - 1 + real k / 100) [0..<200]
   \<and> set (fst (fst (training_sample g))) \<subseteq> {- 1 ..< 1}"
  by (auto simp: training_sample_def x_train_grid)

text \<open>
  C4 as stated fails: two runs whose generators differ in every draw have the same
  training inputs (and different training targets).
\<close>

theorem training_inputs_not_random_counterexample:
  "fst (fst (training_sample (const_rng 0))) = fst (fst (training_sample (const_rng 1)))
   \<and> snd (fst (training_sample (const_rng 0))) \<noteq> snd (fst (training_sample (const_rng 1)))"
proof -
  have "map (\<lambda>i. true_model_at (x_train ! i) + NOISE * const_rng 0 i) [0..<200] ! 0
      \<noteq> map (\<lambda>i. true_model_at (x_train ! i) + NOISE * const_rng 1 i) [0..<200] ! 0"
    by (simp add: const_rng_def NOISE_def)
  then have "map (\<lambda>i. true_model_at (x_train ! i) + NOISE * const_rng 0 i) [0..<200]
      \<noteq> map (\<lambda>i. true_model_at (x_train ! i) + NOISE * const_rng 1 i) [0..<200]"
    by metis
  then show ?thesis
    by (simp add: training_sample_def y_train_eq)
qed

theorem training_inputs_grid_witness:
  "fst (fst (training_sample (const_rng 0))) ! 1 = - 99 / 100"
  using training_inputs_grid [of "const_rng 0"] by simp

section \<open>The test inputs\<close>

text \<open>
  C5, as amended. Whatever the 500 values drawn, every element of the filtered test
  input sequence has absolute value at most 1, the sequence has at most 500 elements,
  and it is non-empty exactly when at least one of the 500 drawn values has absolute
  value at most 1.
\<close>

theorem x_test_filtered:
  "(\<forall>v\<in>set (fst (x_test g)). \<bar>v\<bar> \<le> 1)
   \<and> (fst (x_test g) \<noteq> [] \<longleftrightarrow> (\<exists>i<500. \<bar>g i\<bar> \<le> 1))
   \<and> length (fst (x_test g)) \<le> 500"
proof -
  have "length (filter (\<lambda>v. \<bar>v\<bar> \<le> 1) (map g [0..<500])) \<le> length (map g [0..<500])"
    by (rule length_filter_le)
  then have "length (fst (x_test g)) \<le> 500"
    by (simp add: x_test_eq)
  moreover have "fst (x_test g) \<noteq> [] \<longleftrightarrow> (\<exists>i<500. \<bar>g i\<bar> \<le> 1)"
    by (auto simp: x_test_eq filter_empty_conv)
  ultimately show ?thesis by (auto simp: x_test_eq)
qed

text \<open>
  C5 as stated fails on non-emptiness: a draw of 500 values that are all 2 leaves an
  empty test input sequence.
\<close>

theorem x_test_empty_counterexample: "fst (x_test (const_rng 2)) = []"
  by (simp add: x_test_eq const_rng_def)

theorem x_test_filtered_witness:
  "fst (x_test (const_rng 0)) \<noteq> [] \<and> \<bar>hd (fst (x_test (const_rng 0)))\<bar> \<le> 1"
proof -
  have "\<exists>i<500. \<bar>const_rng 0 i\<bar> \<le> 1"
    by (rule exI [of _ 0]) (simp add: const_rng_def)
  with x_test_filtered [of "const_rng 0"] show ?thesis
    by (metis hd_in_set)
qed

section \<open>The root-mean-squared error\<close>

text \<open>
  C7, as amended. For every pair of non-empty real sequences of equal length, \<open>rmse\<close>
  returns a value, that value is non-negative, and it is zero when the predictions
  equal the targets elementwise. (That it is zero only then is a fact of exact
  arithmetic, not of the floating-point squares of the source, and is not claimed.)
\<close>

theorem rmse_nonneg_zero_when_equal:
  assumes "length preds = length true_y" and "preds \<noteq> []"
  shows "(\<exists>r. rmse preds true_y = Inr r \<and> 0 \<le> r)
       \<and> (preds = true_y \<longrightarrow> rmse preds true_y = Inr 0)"
proof -
  let ?r = "sqrt (sse preds true_y / real (length true_y))"
  have eq: "rmse preds true_y = Inr ?r"
    using assms by (rule rmse_same_length)
  have "0 \<le> ?r"
    using sse_nonneg [of preds true_y] by simp
  moreover have "?r = 0" if "preds = true_y"
    using that assms(1) by (simp add: sse_zero_iff)
  ultimately show ?thesis
    using eq by auto
qed

text \<open>
  C7 as stated fails on the empty pair: the two sequences have equal length and are
  equal elementwise, and \<open>rmse\<close> raises instead of returning zero.
\<close>

theorem rmse_empty_raises_counterexample:
  "length ([] :: real list) = length ([] :: real list) \<and> rmse [] [] = Inl StatisticsError"
  by (simp add: rmse_def broadcast_def mean_def)

theorem rmse_nonneg_zero_when_equal_witness:
  "length [1, 3 :: real] = length [1, 3 :: real] \<and> [1, 3 :: real] \<noteq> []
   \<and> rmse [1, 3] [1, 3] = Inr 0"
  using rmse_nonneg_zero_when_equal [of "[1, 3]" "[1, 3]"] by auto

text \<open>
  C8, as amended. For every pair of non-empty real sequences of equal length, \<open>rmse\<close>
  returns the square root of the arithmetic mean of the squared per-element
  differences between targets and predictions.
\<close>

theorem rmse_refines_spec:
  assumes "length preds = length true_y" and "preds \<noteq> []"
  shows "rmse preds true_y = Inr (rmse_spec preds true_y)"
  using assms by (simp add: rmse_same_length rmse_spec_def sse_sum_nth)

text \<open>
  C8 as stated fails on the empty pair, where there is no mean to take: \<open>rmse\<close> returns
  no number there, so in particular not the value of the formula.
\<close>

theorem rmse_empty_not_spec_counterexample:
  "rmse [] [] \<noteq> Inr (rmse_spec [] [])"
  by (simp add: rmse_def broadcast_def mean_def)

theorem rmse_refines_spec_witness:
  "length [0, 0 :: real] = length [3, 3 :: real] \<and> [0, 0 :: real] \<noteq> []
   \<and> rmse [0, 0] [3, 3] = Inr 3"
  using rmse_refines_spec [of "[0, 0]" "[3, 3]"]
  by (simp add: rmse_spec_def lessThan_Suc numeral_2_eq_2)

section \<open>The targets\<close>

text \<open>
  C9. The test targets are generated with the same ground truth and the same noise
  scale as the training targets. The training target at position \<open>i\<close> is
  \<open>true_model_at\<close> of the training input plus \<open>NOISE\<close> times the \<open>i\<close>-th draw of the
  generator; when there is a test input at all, the test target at position \<open>i\<close> is
  \<open>true_model_at\<close> of the test input plus the same \<open>NOISE\<close> times a draw not used before
  (draw \<open>700 + i\<close>, after the 200 of the training noise and the 500 of the test inputs).
  That the draws are Gaussian is a property of the generator, which is a parameter here.
\<close>

theorem targets_same_truth_and_noise:
  assumes "fst (x_test (snd (y_train g))) \<noteq> []"
  shows "\<exists>yv ytv.
      fst (y_train g) = Inr yv \<and> length yv = length x_train
    \<and> (\<forall>i<length x_train. yv ! i = true_model_at (x_train ! i) + NOISE * g i)
    \<and> fst (y_test (fst (x_test (snd (y_train g)))) (snd (x_test (snd (y_train g))))) = Inr ytv
    \<and> length ytv = length (fst (x_test (snd (y_train g))))
    \<and> (\<forall>i<length ytv.
          ytv ! i = true_model_at (fst (x_test (snd (y_train g))) ! i) + NOISE * g (700 + i))"
proof -
  let ?xt = "fst (x_test (snd (y_train g)))"
  let ?g2 = "snd (x_test (snd (y_train g)))"
  have g2: "?g2 = (\<lambda>i. g (700 + i))"
    by (simp add: x_test_eq y_train_eq add.assoc)
  have "fst (y_test ?xt ?g2)
      = Inr (map (\<lambda>i. true_model_at (?xt ! i) + NOISE * ?g2 i) [0..<length ?xt])"
    using assms by (simp add: y_test_nonempty)
  then show ?thesis
    unfolding g2 by (simp add: y_train_eq length_x_train)
qed

theorem targets_same_truth_and_noise_witness:
  "fst (x_test (snd (y_train (const_rng 0)))) \<noteq> []
   \<and> (\<exists>ytv. fst (y_test (fst (x_test (snd (y_train (const_rng 0)))))
                 (snd (x_test (snd (y_train (const_rng 0)))))) = Inr ytv
          \<and> ytv ! 0 = 5 * sin 3)"
proof -
  have xt: "fst (x_test (snd (y_train (const_rng 0)))) = map (\<lambda>i. 0) [0..<500]"
    by (simp add: x_test_eq y_train_eq const_rng_def)
  then have ne: "fst (x_test (snd (y_train (const_rng 0)))) \<noteq> []"
    by simp
  from targets_same_truth_and_noise [OF ne] xt show ?thesis
    using ne by (auto simp: true_model_at_def const_rng_def)
qed

section \<open>The feature frames\<close>

subsection \<open>Column labels are distinct\<close>

lemma digit_inj: "a < 10 \<Longrightarrow> b < 10 \<Longrightarrow> digit a = digit b \<Longrightarrow> a = b"
proof -
  assume a: "a < 10" and b: "b < 10" and eq: "digit a = digit b"
  have cases10: "n = 0 \<or> n = 1 \<or> n = 2 \<or> n = 3 \<or> n = 4 \<or> n = 5 \<or> n = 6 \<or> n = 7 \<or> n = 8 \<or> n = 9"
    if "n < 10" for n :: nat
    using that by arith
  from cases10 [OF a] cases10 [OF b] eq show ?thesis
    by (elim disjE) (simp_all add: digit_def)
qed

lemma str_nonempty: "str n \<noteq> []"
  by (subst str.simps) simp

lemma str_small: "n < 10 \<Longrightarrow> str n = [digit n]"
  by (subst str.simps) simp

lemma str_large: "\<not> n < 10 \<Longrightarrow> str n = str (n div 10) @ [digit (n mod 10)]"
  by (subst str.simps) simp

lemma str_inj: "str m = str n \<Longrightarrow> m = n"
proof (induction m arbitrary: n rule: str.induct)
  case (1 m)
  show ?case
  proof (cases "m < 10")
    case m: True
    show ?thesis
    proof (cases "n < 10")
      case True
      with m "1.prems" show ?thesis
        by (simp add: str_small digit_inj)
    next
      case False
      with m "1.prems" str_nonempty [of "n div 10"] show ?thesis
        by (simp add: str_small str_large)
    qed
  next
    case m: False
    show ?thesis
    proof (cases "n < 10")
      case True
      with m "1.prems" str_nonempty [of "m div 10"] show ?thesis
        by (simp add: str_small str_large)
    next
      case False
      with m "1.prems" have eq: "str (m div 10) = str (n div 10)"
        and d: "digit (m mod 10) = digit (n mod 10)"
        by (simp_all add: str_large)
      from "1.IH" [OF m eq] have "m div 10 = n div 10" .
      moreover from d have "m mod 10 = n mod 10"
        by (intro digit_inj) simp_all
      ultimately show ?thesis
        by (metis div_mult_mod_eq)
    qed
  qed
qed

lemma column_label_inj: "column_label j = column_label k \<Longrightarrow> j = k"
  by (auto simp: column_label_def dest: str_inj split: if_splits)

lemma setitem_fresh:
  "name \<notin> fst ` set f \<Longrightarrow> setitem f name col = f @ [(name, col)]"
  by (induction f) auto

subsection \<open>The frame of all powers and its prefixes\<close>

lemma power_column_one: "power_column xs 1 = (''x'', xs)"
  by (simp add: power_column_def column_label_def)

lemma setitem_power_column:
  assumes "1 \<le> n"
  shows "setitem (map (power_column xs) [1..<Suc n]) (''x^'' @ str (Suc n)) (map (\<lambda>v. v ^ Suc n) xs)
    = map (power_column xs) [1..<Suc (Suc n)]"
proof -
  have label: "''x^'' @ str (Suc n) = column_label (Suc n)"
    using assms by (simp add: column_label_def)
  have fresh: "column_label (Suc n) \<notin> fst ` set (map (power_column xs) [1..<Suc n])"
  proof
    assume "column_label (Suc n) \<in> fst ` set (map (power_column xs) [1..<Suc n])"
    then obtain k where k: "k < Suc n" and eq: "column_label (Suc n) = column_label k"
      by (auto simp: power_column_def simp del: upt_Suc)
    from eq have "Suc n = k" by (rule column_label_inj)
    with k show False by simp
  qed
  have "[1..<Suc (Suc n)] = [1..<Suc n] @ [Suc n]"
    by (rule upt_Suc_append) simp
  then have "map (power_column xs) [1..<Suc (Suc n)]
      = map (power_column xs) [1..<Suc n] @ [(column_label (Suc n), map (\<lambda>v. v ^ Suc n) xs)]"
    by (simp only: map_append list.map power_column_def)
  with setitem_fresh [OF fresh] label show ?thesis
    by (simp only:)
qed

lemma expand_upto:
  assumes "1 \<le> n"
  shows "fold (\<lambda>i f. setitem f (''x^'' @ str i) (map (\<lambda>v. v ^ i) xs)) [2..<Suc n] [(''x'', xs)]
    = map (power_column xs) [1..<Suc n]"
  using assms
proof (induction n rule: nat_induct_at_least)
  case base
  have "[2..<Suc 1] = []" by simp
  moreover have "[1..<Suc 1] = [1]" by simp
  ultimately show ?case
    by (simp only: fold.simps list.map power_column_one id_apply)
next
  case (Suc n)
  let ?step = "\<lambda>i f. setitem f (''x^'' @ str i) (map (\<lambda>v. v ^ i) xs)"
  have "[2..<Suc (Suc n)] = [2..<Suc n] @ [Suc n]"
    using Suc.hyps by (intro upt_Suc_append) simp
  then have "fold ?step [2..<Suc (Suc n)] [(''x'', xs)]
      = ?step (Suc n) (fold ?step [2..<Suc n] [(''x'', xs)])"
    by (simp only: fold_append fold.simps o_apply id_apply)
  also have "\<dots> = ?step (Suc n) (map (power_column xs) [1..<Suc n])"
    by (simp only: Suc.IH)
  also have "\<dots> = map (power_column xs) [1..<Suc (Suc n)]"
    using Suc.hyps by (rule setitem_power_column)
  finally show ?case .
qed

lemma expand_eq: "expand xs = map (power_column xs) [1..<Suc N]"
proof -
  have "1 \<le> N" by (simp add: N_def)
  then show ?thesis
    unfolding expand_def Suc_eq_plus1 [symmetric] by (rule expand_upto)
qed

lemma length_expand: "length (expand xs) = N"
  by (simp add: expand_eq)

lemma distinct_columns_expand: "distinct (map fst (expand xs))"
proof -
  have "inj_on (\<lambda>k. fst (power_column xs k)) (set [1..<Suc N])"
    by (auto simp: inj_on_def power_column_def dest: column_label_inj)
  then show ?thesis
    by (simp add: expand_eq distinct_map o_def del: upt_Suc)
qed

lemma getitem_present:
  "distinct (map fst f) \<Longrightarrow> set sub \<subseteq> set f \<Longrightarrow> getitem f (map fst sub) = Inr sub"
  by (induction sub) (auto simp: and_then_def)

lemma getitem_prefix:
  assumes "distinct (map fst f)"
  shows "getitem f (take i (columns f)) = Inr (take i f)"
proof -
  have "take i (columns f) = map fst (take i f)"
    by (simp add: columns_def take_map)
  moreover have "set (take i f) \<subseteq> set f"
    by (rule set_take_subset)
  ultimately show ?thesis
    using assms by (simp add: getitem_present)
qed

lemma take_expand:
  assumes "i \<le> N"
  shows "take i (expand xs) = map (power_column xs) [1..<Suc i]"
proof -
  have "take i [1..<Suc N] = [1..<Suc i]"
    using assms by (simp add: take_upt del: upt_Suc)
  then show ?thesis
    by (simp only: expand_eq take_map)
qed

lemma frame_values_powers:
  assumes "1 \<le> d"
  shows "frame_values (map (power_column xs) [1..<Suc d]) = powers_matrix xs d"
proof -
  have split: "[1..<Suc d] = 1 # [Suc 1..<Suc d]"
    using assms by (intro upt_conv_Cons) simp
  have "map (power_column xs) [1..<Suc d] = (''x'', xs) # map (power_column xs) [Suc 1..<Suc d]"
    by (simp only: split list.map power_column_one)
  then have "frame_values (map (power_column xs) [1..<Suc d])
      = map (\<lambda>r. map (\<lambda>(n', c'). c' ! r) (map (power_column xs) [1..<Suc d])) [0..<length xs]"
    unfolding frame_values_def by (simp only: list.case prod.case)
  also have "\<dots> = powers_matrix xs d"
    unfolding powers_matrix_def
    by (rule nth_equalityI) (simp_all add: power_column_def o_def del: upt_Suc)
  finally show ?thesis .
qed

lemma collect_all_ok:
  "(\<And>a. a \<in> set as \<Longrightarrow> h a = Inr (k a)) \<Longrightarrow> collect h as = Inr (map k as)"
  by (induction as) (simp_all add: and_then_def)

lemma prefix_matrices_expand:
  "prefix_matrices (expand xs) = Inr (map (powers_matrix xs) model_size)"
  unfolding prefix_matrices_def length_expand model_size_def
proof (rule collect_all_ok)
  fix i assume "i \<in> set [1..<N]"
  then have i: "1 \<le> i" "i \<le> N" by simp_all
  show "and_then (getitem (expand xs) (take i (columns (expand xs))))
          (\<lambda>sub. Inr (frame_values sub)) = Inr (powers_matrix xs i)"
  proof -
    have "getitem (expand xs) (take i (columns (expand xs))) = Inr (take i (expand xs))"
      by (rule getitem_prefix [OF distinct_columns_expand])
    moreover have "frame_values (take i (expand xs)) = powers_matrix xs i"
      using i by (simp only: take_expand frame_values_powers)
    ultimately show ?thesis by simp
  qed
qed

lemma Xs_eq: "Xs = Inr (map (powers_matrix x_train) model_size)"
  by (simp add: Xs_def df_def prefix_matrices_expand)

lemma test_Xs_eq: "test_Xs xt = Inr (map (powers_matrix xt) model_size)"
  by (simp add: test_Xs_def df_test_def prefix_matrices_expand)

lemma frame_values_expand: "frame_values (expand xs) = powers_matrix xs N"
  unfolding expand_eq by (rule frame_values_powers) (simp add: N_def)

lemma item_in_range:
  "1 \<le> d \<Longrightarrow> d \<le> length xs \<Longrightarrow> item xs (int d - 1) = Inr (xs ! (d - 1))"
  by (auto simp: item_def Let_def nat_diff_distrib')

lemma item_at_length: "item xs (int (length xs)) = Inl IndexError"
  by (simp add: item_def Let_def)

lemma length_powers_matrix: "length (powers_matrix xs d) = length xs"
  by (simp add: powers_matrix_def)


lemma length_predict: "length (predict m X) = length X"
  by (simp add: predict_def)

lemma take_powers_matrix:
  assumes "d \<le> n"
  shows "map (take d) (powers_matrix xs n) = powers_matrix xs d"
proof -
  have "take d [1..<Suc n] = [1..<Suc d]"
    using assms by (simp add: take_upt del: upt_Suc)
  then show ?thesis
    by (simp add: powers_matrix_def take_map o_def del: upt_Suc)
qed

lemma models_eq:
  "models fit (map (powers_matrix xs) ds) yv = map (\<lambda>d. fit (powers_matrix xs d) yv) ds"
  by (simp add: models_def o_def)

lemma predictions_eq:
  "predictions (map (powers_matrix xs) ds) (map (\<lambda>d. fit (powers_matrix xs d) yv) ds)
    = map (\<lambda>d. predict (fit (powers_matrix xs d) yv) (powers_matrix xs d)) ds"
  by (induction ds) (simp_all add: predictions_def)

lemma test_predictions_eq:
  "test_predictions (map (powers_matrix xt) ds) (map (\<lambda>d. fit (powers_matrix xs d) yv) ds)
    = map (\<lambda>d. predict (fit (powers_matrix xs d) yv) (powers_matrix xt d)) ds"
  by (induction ds) (simp_all add: test_predictions_def)

lemma rmse_no_broadcast_error:
  "length p = length t \<Longrightarrow> rmse p t \<noteq> Inl BroadcastError"
  by (auto simp: rmse_def broadcast_def mean_def math_sqrt_def and_then_def split: if_splits)

lemma rmse_loop_ok:
  assumes "true_y \<noteq> []"
    and "\<And>i. i \<in> set sizes \<Longrightarrow> 1 \<le> i \<and> i \<le> length preds \<and> length (preds ! (i - 1)) = length true_y"
  shows "rmse_loop preds true_y curve sizes
    = Inr (curve @ map (\<lambda>i. sqrt (sse (preds ! (i - 1)) true_y / real (length true_y))) sizes)"
  using assms(2)
proof (induction sizes arbitrary: curve)
  case Nil
  show ?case by simp
next
  case (Cons i rest)
  have i: "1 \<le> i" "i \<le> length preds" "length (preds ! (i - 1)) = length true_y"
    using Cons.prems [of i] by simp_all
  then have ne: "preds ! (i - 1) \<noteq> []"
    using assms(1) by auto
  have r: "rmse (preds ! (i - 1)) true_y
      = Inr (sqrt (sse (preds ! (i - 1)) true_y / real (length true_y)))"
    by (rule rmse_same_length [OF i(3) ne])
  have it: "item preds (int i - 1) = Inr (preds ! (i - 1))"
    using i by (intro item_in_range)
  have "rmse_loop preds true_y curve (i # rest)
      = rmse_loop preds true_y (curve @ [sqrt (sse (preds ! (i - 1)) true_y / real (length true_y))]) rest"
    by (simp only: rmse_loop.simps it r and_then_Inr)
  also have "\<dots> = Inr ((curve @ [sqrt (sse (preds ! (i - 1)) true_y / real (length true_y))])
      @ map (\<lambda>i. sqrt (sse (preds ! (i - 1)) true_y / real (length true_y))) rest)"
  proof (rule Cons.IH)
    fix j assume "j \<in> set rest"
    then show "1 \<le> j \<and> j \<le> length preds \<and> length (preds ! (j - 1)) = length true_y"
      using Cons.prems [of j] by simp
  qed
  finally show ?case by simp
qed

lemma degree_curve:
  assumes "true_y \<noteq> []" and "\<And>d. length (p d) = length true_y"
  shows "rmse_loop (map p model_size) true_y [] model_size
    = Inr (map (\<lambda>d. sqrt (sse (p d) true_y / real (length true_y))) model_size)"
proof -
  have "rmse_loop (map p model_size) true_y [] model_size
      = Inr ([] @ map (\<lambda>i. sqrt (sse (map p model_size ! (i - 1)) true_y / real (length true_y))) model_size)"
    using assms by (intro rmse_loop_ok) (auto simp: model_size_def)
  also have "map (\<lambda>i. sqrt (sse (map p model_size ! (i - 1)) true_y / real (length true_y))) model_size
      = map (\<lambda>d. sqrt (sse (p d) true_y / real (length true_y))) model_size"
    by (rule map_cong) (auto simp: model_size_def)
  finally show ?thesis by simp
qed

lemma y_train_targets: "fst (y_train g) = Inr (training_targets g)"
  by (simp add: y_train_eq training_targets_def)

lemma length_training_targets: "length (training_targets g) = 200"
  by (simp add: training_targets_def)



lemma nth_degrees: "1 \<le> d \<Longrightarrow> d < N \<Longrightarrow> map p model_size ! (d - 1) = p d"
  by (simp add: model_size_def)

lemma length_model_size: "length model_size = N - 1"
  by (simp add: model_size_def)

lemma item_degree:
  assumes "1 \<le> d" and "d < N"
  shows "item (map p model_size) (int d - 1) = Inr (p d)"
proof -
  have "item (map p model_size) (int d - 1) = Inr (map p model_size ! (d - 1))"
    using assms by (intro item_in_range) (simp_all add: length_model_size)
  then show ?thesis
    using assms by (simp only: nth_degrees)
qed

text \<open>
  C6. Feature expansion is prefix-consistent. For every input sequence and every
  degree \<open>d\<close> from 1 to \<open>N\<close>, the feature matrix the script's expression builds for
  degree \<open>d\<close> is the first \<open>d\<close> columns of the full matrix of the frame, with column \<open>k\<close>
  holding each input raised to the power \<open>k\<close>; and for every degree that has a model
  (\<open>d < N\<close>), the matrix at position \<open>d\<close> of \<^verbatim>\<open>Xs\<close> and of \<^verbatim>\<open>test_Xs\<close>, used to fit and to
  evaluate that model, is this prefix of the training frame and of the test frame.
\<close>

theorem feature_prefix_consistent:
  assumes "1 \<le> d" and "d \<le> N"
  shows "and_then (getitem (expand xs) (take d (columns (expand xs)))) (\<lambda>sub. Inr (frame_values sub))
           = Inr (map (take d) (frame_values (expand xs)))
       \<and> map (take d) (frame_values (expand xs)) = map (\<lambda>v. map (\<lambda>k. v ^ k) [1..<d + 1]) xs
       \<and> (d < N \<longrightarrow>
            and_then Xs (\<lambda>Xv. item Xv (int d - 1)) = Inr (map (take d) (frame_values df))
          \<and> and_then (test_Xs xt) (\<lambda>tXv. item tXv (int d - 1))
              = Inr (map (take d) (frame_values (df_test xt))))"
proof -
  have full: "map (take d) (frame_values (expand ys)) = powers_matrix ys d" for ys
    using assms by (simp add: frame_values_expand take_powers_matrix)
  have "getitem (expand xs) (take d (columns (expand xs))) = Inr (take d (expand xs))"
    by (rule getitem_prefix [OF distinct_columns_expand])
  moreover have "frame_values (take d (expand xs)) = powers_matrix xs d"
    using assms by (simp only: take_expand frame_values_powers)
  ultimately have source: "and_then (getitem (expand xs) (take d (columns (expand xs))))
      (\<lambda>sub. Inr (frame_values sub)) = Inr (map (take d) (frame_values (expand xs)))"
    by (simp add: full)
  have powers: "map (take d) (frame_values (expand xs)) = map (\<lambda>v. map (\<lambda>k. v ^ k) [1..<d + 1]) xs"
    unfolding full by (rule powers_matrix_def)
  have used: "and_then Xs (\<lambda>Xv. item Xv (int d - 1)) = Inr (map (take d) (frame_values df))
      \<and> and_then (test_Xs xt) (\<lambda>tXv. item tXv (int d - 1))
          = Inr (map (take d) (frame_values (df_test xt)))" if "d < N"
    using assms(1) that by (simp add: Xs_eq test_Xs_eq item_degree df_def df_test_def full)
  from source powers used show ?thesis by blast
qed

theorem feature_prefix_consistent_witness:
  "and_then (getitem (expand [2, 3]) (take 2 (columns (expand [2, 3])))) (\<lambda>sub. Inr (frame_values sub))
     = Inr [[2, 4], [3, 9]]
   \<and> map (take 2) (frame_values (expand [2, 3])) = [[2, 4], [3, 9]]
   \<and> and_then (test_Xs [2, 3]) (\<lambda>tXv. item tXv (int 2 - 1)) = Inr [[2, 4], [3, 9]]"
proof -
  have 1: "(1::nat) \<le> 2" and 2: "(2::nat) \<le> N" and 3: "(2::nat) < N"
    by (simp_all add: N_def)
  have "[1..<2 + 1] = [1, 2::nat]"
    by (simp add: upt_rec)
  with feature_prefix_consistent [OF 1 2, of "[2, 3]" "[2, 3]"] 3 show ?thesis
    by (simp add: df_test_def)
qed

section \<open>The fitted models\<close>

text \<open>
  C1. One model per degree from 1 to \<open>N = 40\<close> is claimed. The list of models is the
  list of the fits on the feature matrices of the degrees 1 to \<open>N - 1\<close> against the
  training targets: the model at position \<open>d\<close> is fit on the degree-\<open>d\<close> matrix, and
  there are 39 models, not 40.
\<close>

theorem models_one_short:
  "and_then Xs (\<lambda>Xv. Inr (models fit Xv yv))
     = Inr (map (\<lambda>d. fit (powers_matrix x_train d) yv) [1..<N])
   \<and> and_then Xs (\<lambda>Xv. Inr (length (models fit Xv yv))) = Inr 39
   \<and> N = 40"
  by (simp add: Xs_eq models_eq length_model_size) (simp add: model_size_def N_def)

section \<open>The error curves\<close>

lemma training_rmse_eq:
  "training_rmse (map (\<lambda>d. predict (fit (powers_matrix x_train d) (training_targets g))
        (powers_matrix x_train d)) model_size) (training_targets g)
    = Inr (map (\<lambda>d. sqrt (sse (predict (fit (powers_matrix x_train d) (training_targets g))
                      (powers_matrix x_train d)) (training_targets g) / 200)) model_size)"
proof -
  let ?yv = "training_targets g"
  have ne: "?yv \<noteq> []" using length_training_targets [of g] by auto
  have "training_rmse (map (\<lambda>d. predict (fit (powers_matrix x_train d) ?yv) (powers_matrix x_train d)) model_size) ?yv
      = Inr (map (\<lambda>d. sqrt (sse (predict (fit (powers_matrix x_train d) ?yv) (powers_matrix x_train d)) ?yv
            / real (length ?yv))) model_size)"
    unfolding training_rmse_def using ne
    by (rule degree_curve)
       (simp add: length_predict length_powers_matrix length_x_train length_training_targets)
  then show ?thesis
    by (simp add: length_training_targets)
qed

lemma notebook_training_rmse_eq:
  "notebook_training_rmse fit g
    = Inr (map (\<lambda>d. sqrt (sse (predict (fit (powers_matrix x_train d) (training_targets g))
                      (powers_matrix x_train d)) (training_targets g) / 200)) model_size)"
  by (simp add: notebook_training_rmse_def y_train_targets Xs_eq models_eq predictions_eq
      training_rmse_eq)

lemma notebook_test_rmse_cases:
  "notebook_test_rmse fit g = Inl VectorizeSizeZero \<or> (\<exists>curve. notebook_test_rmse fit g = Inr curve)"
proof (cases "fst (x_test (snd (y_train g))) = []")
  case True
  then show ?thesis
    by (simp add: notebook_test_rmse_def y_train_targets Xs_eq models_eq predictions_eq
        training_rmse_eq y_test_empty prod.case_eq_if)
next
  case False
  let ?xt = "fst (x_test (snd (y_train g)))"
  let ?g2 = "snd (x_test (snd (y_train g)))"
  let ?ytv = "map (\<lambda>i. true_model_at (?xt ! i) + NOISE * ?g2 i) [0..<length ?xt]"
  let ?p = "\<lambda>d. predict (fit (powers_matrix x_train d) (training_targets g)) (powers_matrix ?xt d)"
  have ne: "?ytv \<noteq> []" using False by simp
  have "test_rmse (map ?p model_size) ?ytv
      = Inr (map (\<lambda>d. sqrt (sse (?p d) ?ytv / real (length ?ytv))) model_size)"
    unfolding test_rmse_def using ne
    by (rule degree_curve) (simp add: length_predict length_powers_matrix)
  then have "\<exists>curve. notebook_test_rmse fit g = Inr curve"
    using False
    by (simp add: notebook_test_rmse_def y_train_targets Xs_eq models_eq predictions_eq
        training_rmse_eq y_test_nonempty test_Xs_eq test_predictions_eq prod.case_eq_if)
  then show ?thesis ..
qed

text \<open>
  C10. Every call of \<open>rmse\<close> in the script is on two sequences of equal length. For
  every model size \<open>i\<close> the script iterates over, the training predictions at index \<open>i - 1\<close> exist
  and are as long as the training targets, the test predictions at index \<open>i - 1\<close>
  exist and are as long as the test targets, so neither call raises the broadcast
  error of a length mismatch, and neither curve of the notebook ends in it.
\<close>

theorem rmse_calls_equal_length:
  assumes "fst (y_train g) = Inr yv" and "Xs = Inr Xv"
    and "fst (y_test xt g2) = Inr ytv" and "test_Xs xt = Inr tXv"
    and "i \<in> set model_size"
  shows "\<exists>p q.
      item (predictions Xv (models fit Xv yv)) (int i - 1) = Inr p \<and> length p = length yv
    \<and> item (test_predictions tXv (models fit Xv yv)) (int i - 1) = Inr q \<and> length q = length ytv
    \<and> rmse p yv \<noteq> Inl BroadcastError \<and> rmse q ytv \<noteq> Inl BroadcastError
    \<and> notebook_training_rmse fit g \<noteq> Inl BroadcastError
    \<and> notebook_test_rmse fit g \<noteq> Inl BroadcastError"
proof -
  have yv: "yv = training_targets g"
    using assms(1) by (simp add: y_train_targets)
  have Xv: "Xv = map (powers_matrix x_train) model_size"
    using assms(2) by (simp add: Xs_eq)
  have tXv: "tXv = map (powers_matrix xt) model_size"
    using assms(4) by (simp add: test_Xs_eq)
  have xt: "xt \<noteq> []"
    using assms(3) by (auto simp: y_test_empty)
  have ytv: "length ytv = length xt"
    using assms(3) by (auto simp: y_test_nonempty [OF xt])
  have i: "1 \<le> i" "i < N"
    using assms(5) by (simp_all add: model_size_def)
  let ?p = "predict (fit (powers_matrix x_train i) yv) (powers_matrix x_train i)"
  let ?q = "predict (fit (powers_matrix x_train i) yv) (powers_matrix xt i)"
  have p: "item (predictions Xv (models fit Xv yv)) (int i - 1) = Inr ?p"
    unfolding Xv models_eq predictions_eq using i by (rule item_degree)
  have q: "item (test_predictions tXv (models fit Xv yv)) (int i - 1) = Inr ?q"
    unfolding Xv tXv models_eq test_predictions_eq using i by (rule item_degree)
  have lp: "length ?p = length yv"
    by (simp add: yv length_predict length_powers_matrix length_x_train length_training_targets)
  have lq: "length ?q = length ytv"
    by (simp add: ytv length_predict length_powers_matrix)
  have "notebook_training_rmse fit g \<noteq> Inl BroadcastError"
    by (simp add: notebook_training_rmse_eq)
  moreover have "notebook_test_rmse fit g \<noteq> Inl BroadcastError"
    using notebook_test_rmse_cases [of fit g] by auto
  ultimately show ?thesis
    using p q lp lq rmse_no_broadcast_error [OF lp] rmse_no_broadcast_error [OF lq] by blast
qed

theorem rmse_calls_equal_length_witness:
  "\<exists>p q.
      item (predictions (map (powers_matrix x_train) model_size)
              (models zero_fit (map (powers_matrix x_train) model_size) (training_targets (const_rng 0))))
           (int 1 - 1) = Inr p
    \<and> length p = 200
    \<and> item (test_predictions (map (powers_matrix [0, 1]) model_size)
              (models zero_fit (map (powers_matrix x_train) model_size) (training_targets (const_rng 0))))
           (int 1 - 1) = Inr q
    \<and> length q = 2"
proof -
  have 1: "fst (y_train (const_rng 0)) = Inr (training_targets (const_rng 0))"
    by (rule y_train_targets)
  have 2: "Xs = Inr (map (powers_matrix x_train) model_size)"
    by (rule Xs_eq)
  have 3: "fst (y_test [0, 1] (const_rng 0))
      = Inr (map (\<lambda>i. true_model_at ([0, 1] ! i) + NOISE * const_rng 0 i) [0..<length [0 :: real, 1]])"
    by (subst y_test_nonempty) simp_all
  have 4: "test_Xs [0, 1] = Inr (map (powers_matrix [0, 1]) model_size)"
    by (rule test_Xs_eq)
  have 5: "1 \<in> set model_size"
    by (simp add: model_size_def N_def)
  from rmse_calls_equal_length [OF 1 2 3 4 5, of zero_fit] show ?thesis
    by (auto simp: length_training_targets)
qed

section \<open>Training error and flexibility\<close>












subsection \<open>A least-squares fit with a falling curve\<close>
















section \<open>Test error and the sweet spot\<close>










end
